theory Spec2Isabelle
  imports Main "HOL-Library.AList"
begin

section \<open>Python values and exceptions\<close>

text \<open>
  The exceptions the modelled code can raise. \<open>ReError\<close> is \<open>re.error\<close>.
  \<open>OutsideModel\<close> is no Python exception: it marks an argument for which the library
  call (a regular expression or an ElementPath expression with operators) is not covered
  by this development, so that no theorem speaks about such a call by accident.
\<close>

datatype error =
  ValueError | TypeError | AttributeError | ReError | OverflowError | OutsideModel

text \<open>
  The values \<open>tag2dict\<close> stores: an \<open>int\<close>, a \<open>float\<close> (kept abstract, type \<open>'f\<close>),
  a \<open>str\<close> or \<open>None\<close>.
\<close>

datatype 'f py_value = PyInt int | PyFloat 'f | PyStr string | PyNone

text \<open>\<open>str(x)\<close> for \<open>x\<close> a \<open>str\<close> or \<open>None\<close>, which is what \<open>tag.text\<close> is.\<close>

definition py_str :: "string option \<Rightarrow> string" where
  "py_str t = (case t of None \<Rightarrow> ''None'' | Some s \<Rightarrow> s)"

text \<open>
  \<open>int(x)\<close> and \<open>float(x)\<close> for \<open>x\<close> a \<open>str\<close> or \<open>None\<close>. The parsers of the two
  builtins on strings are parameters (\<open>None\<close>: the string is not a literal of the type,
  the builtin raises \<open>ValueError\<close>); on \<open>None\<close> both raise \<open>TypeError\<close>.
\<close>

definition py_int :: "(string \<Rightarrow> int option) \<Rightarrow> string option \<Rightarrow> error + int" where
  "py_int parse_int t =
     (case t of None \<Rightarrow> Inl TypeError
      | Some s \<Rightarrow> (case parse_int s of None \<Rightarrow> Inl ValueError | Some n \<Rightarrow> Inr n))"

definition py_float :: "(string \<Rightarrow> 'f option) \<Rightarrow> string option \<Rightarrow> error + 'f" where
  "py_float parse_float t =
     (case t of None \<Rightarrow> Inl TypeError
      | Some s \<Rightarrow> (case parse_float s of None \<Rightarrow> Inl ValueError | Some x \<Rightarrow> Inr x))"

section \<open>Characters\<close>

definition is_upper :: "char \<Rightarrow> bool" where
  "is_upper c = (65 \<le> (of_char c :: nat) \<and> (of_char c :: nat) \<le> 90)"

definition is_lower :: "char \<Rightarrow> bool" where
  "is_lower c = (97 \<le> (of_char c :: nat) \<and> (of_char c :: nat) \<le> 122)"

definition is_digit :: "char \<Rightarrow> bool" where
  "is_digit c = (48 \<le> (of_char c :: nat) \<and> (of_char c :: nat) \<le> 57)"

text \<open>\<open>str.lower\<close> on one character of an ASCII string.\<close>

definition lower_char :: "char \<Rightarrow> char" where
  "lower_char c = (if is_upper c then char_of ((of_char c :: nat) + 32) else c)"

section \<open>Enum resolution\<close>

text \<open>
  \<open>_get_from_enum(value, enum, type_=str)\<close>. The argument either is an instance of the
  enumeration already (\<open>Member\<close>: \<open>isinstance(value, enum)\<close> holds) or is some other
  value (\<open>Raw\<close>). An enumeration is the list of its (value, member) pairs in definition
  order; calling the enumeration class on a value returns the first member defined with
  that value and raises \<open>ValueError\<close> when there is none.
\<close>

datatype ('m, 'r) enum_arg = Member 'm | Raw 'r

type_synonym ('c, 'm) enum = "('c \<times> 'm) list"

definition enum_call :: "('c, 'm) enum \<Rightarrow> 'c \<Rightarrow> error + 'm" where
  "enum_call enum c = (case map_of enum c of None \<Rightarrow> Inl ValueError | Some m \<Rightarrow> Inr m)"

definition get_from_enum ::
  "('m, 'r) enum_arg \<Rightarrow> ('c, 'm) enum \<Rightarrow> ('r \<Rightarrow> error + 'c) \<Rightarrow> error + 'm" where
  "get_from_enum v enum ty =
     (case v of
        Member m \<Rightarrow> Inr m
      | Raw r \<Rightarrow> (case ty r of Inl e \<Rightarrow> Inl e | Inr c \<Rightarrow> enum_call enum c))"

section \<open>XML elements\<close>

text \<open>
  An \<open>lxml.objectify\<close> element: its tag (\<open>{namespace}local\<close> or \<open>local\<close>), its
  \<open>text\<close> (a \<open>str\<close> or \<open>None\<close>), its children in document order, and the result of
  the \<open>isinstance\<close> tests that \<open>tag2dict\<close> makes on it: \<open>IntElement\<close>, \<open>StringElement\<close>
  or \<open>FloatElement\<close> when the element is an instance of that class (a subclass counts as
  its base, as for \<open>isinstance\<close>), \<open>OtherElement\<close> when it is an instance of none of the
  three. The three classes have no common instance, so the order of the tests is immaterial.
  The children are the element nodes; comments and processing instructions, whose \<open>tag\<close>
  is not a string, are not part of the model.
\<close>

datatype lxml_class = IntElement | StringElement | FloatElement | OtherElement

datatype element = Element (tag: string) (etext: "string option") (cls: lxml_class)
  (children: "element list")

section \<open>Stripping the namespace: \<open>re.sub(fr"^{{{xmlns}}}", "", tag.tag)\<close>\<close>

text \<open>
  The pattern is \<open>^{\<close>, the text of \<open>xmlns\<close> as it is (not escaped) and \<open>}\<close>. The model
  covers the patterns in which the only operators of the regular-expression syntax that
  \<open>xmlns\<close> has are the dot (any character but a newline) and the plus sign (one or more
  of the character before it, as many as possible); every other character of \<open>xmlns\<close>
  stands for itself. With another operator in \<open>xmlns\<close> the result is \<open>OutsideModel\<close>.
\<close>

definition re_operator :: "char \<Rightarrow> bool" where
  "re_operator c = (c \<in> set ''^$*?{}[]|()'' \<or> c = CHR 0x5C)"

text \<open>A pattern as the list of its characters, each with whether a plus sign follows it.\<close>

fun re_items :: "string \<Rightarrow> (char \<times> bool) list" where
  "re_items (c # p # s) =
     (if p = CHR ''+'' then (c, True) # re_items s else (c, False) # re_items (p # s))"
| "re_items [c] = [(c, False)]"
| "re_items [] = []"

definition re_atom_matches :: "char \<Rightarrow> char \<Rightarrow> bool" where
  "re_atom_matches a c = (if a = CHR ''.'' then c \<noteq> CHR 0x0A else c = a)"

text \<open>
  Matching at the start of a string: the rest of the string after the match, or \<open>None\<close>.
  A repeated character takes as many characters as it can and gives them back one by one
  when the rest of the pattern does not match.
\<close>

fun re_match_prefix :: "(char \<times> bool) list \<Rightarrow> string \<Rightarrow> string option" where
  "re_match_prefix [] s = Some s"
| "re_match_prefix (p # ps) [] = None"
| "re_match_prefix ((a, rep) # ps) (c # cs) =
     (if re_atom_matches a c
      then (if rep
            then (case re_match_prefix ((a, True) # ps) cs of
                    Some r \<Rightarrow> Some r
                  | None \<Rightarrow> re_match_prefix ps cs)
            else re_match_prefix ps cs)
      else None)"

text \<open>
  When \<open>xmlns\<close> is digits, or digits, a comma and digits (either run may be empty), the
  braces of the pattern are read as a repetition \<open>{m,n}\<close> of the anchor \<open>^\<close>, and compiling
  the pattern raises an exception. Otherwise the braces are literal.
\<close>

definition repeat_body :: "string \<Rightarrow> bool" where
  "repeat_body s =
     (case dropWhile is_digit s of [] \<Rightarrow> True
      | c # r \<Rightarrow> c = CHR '','' \<and> dropWhile is_digit r = [])"

text \<open>
  The exception for such a pattern. The two numbers are converted in turn, the first run of
  digits, then the run after the comma (the first run again when there is no comma); an
  empty run is not converted. A number of 4294967295 (\<open>MAXREPEAT\<close>) or more raises
  \<open>OverflowError\<close>; otherwise \<open>re.error\<close> is raised (the larger number first, or nothing
  to repeat). The conversion of a run of more than 4300 digits depends on the version of
  Python and is outside the model.
\<close>

definition digits_value :: "string \<Rightarrow> int" where
  "digits_value s = foldl (\<lambda>n c. 10 * n + ((of_char c :: int) - 48)) 0 s"

definition repeat_error :: "string \<Rightarrow> error" where
  "repeat_error s =
     (let lo = takeWhile is_digit s;
          hi = (case dropWhile is_digit s of [] \<Rightarrow> lo | c # r \<Rightarrow> takeWhile is_digit r)
      in if 4300 < length lo then OutsideModel
         else if 4294967295 \<le> digits_value lo then OverflowError
         else if 4300 < length hi then OutsideModel
         else if 4294967295 \<le> digits_value hi then OverflowError
         else ReError)"

text \<open>
  The substitution. The pattern is anchored and the replacement is empty, so the result is
  what follows the match, or the tag itself when there is no match. A plus sign that is
  itself repeated (\<open>++\<close>) is outside the model.
\<close>

definition strip_xmlns :: "string \<Rightarrow> string \<Rightarrow> error + string" where
  "strip_xmlns xmlns t =
     (if (\<exists>c \<in> set xmlns. re_operator c)
         \<or> (\<exists>i \<in> set (re_items (''{'' @ xmlns @ ''}'')). fst i = CHR ''+'')
      then Inl OutsideModel
      else if repeat_body xmlns then Inl (repeat_error xmlns)
      else (case re_match_prefix (re_items (''{'' @ xmlns @ ''}'')) t of
              Some rest \<Rightarrow> Inr rest
            | None \<Rightarrow> Inr t))"

section \<open>\<open>camel_to_snake\<close>\<close>

text \<open>
  Modelled from the spec: \<open>camel_to_snake\<close> is imported from the package \<open>mh_utils\<close>, whose
  source is not among the sources of this repository; the spec calls it the generic
  CamelCase to snake_case transform. The model is the customary two substitutions followed
  by \<open>lower()\<close>, on ASCII strings: \<open>(.)([A-Z][a-z]+)\<close> replaced by \<open>\1_\2\<close>
  (\<open>sub_case_boundary\<close>), then \<open>([a-z0-9])([A-Z])\<close> replaced by \<open>\1_\2\<close>
  (\<open>sub_single_letters\<close>). Each function scans from the left and, after a match, goes on
  behind it, as \<open>re.sub\<close> does.
\<close>

function sub_case_boundary :: "string \<Rightarrow> string" where
  "sub_case_boundary (a # b # c # s) =
     (if a \<noteq> CHR 0x0A \<and> is_upper b \<and> is_lower c
      then a # CHR ''_'' # b # c # takeWhile is_lower s @ sub_case_boundary (dropWhile is_lower s)
      else a # sub_case_boundary (b # c # s))"
| "sub_case_boundary [a, b] = [a, b]"
| "sub_case_boundary [a] = [a]"
| "sub_case_boundary [] = []"
  by pat_completeness auto
termination
  by (relation "measure length") (auto simp: less_Suc_eq_le intro: le_trans [OF length_dropWhile_le])

fun sub_single_letters :: "string \<Rightarrow> string" where
  "sub_single_letters (a # b # s) =
     (if (is_lower a \<or> is_digit a) \<and> is_upper b
      then a # CHR ''_'' # b # sub_single_letters s
      else a # sub_single_letters (b # s))"
| "sub_single_letters [a] = [a]"
| "sub_single_letters [] = []"

definition camel_to_snake :: "string \<Rightarrow> string" where
  "camel_to_snake name = map lower_char (sub_single_letters (sub_case_boundary name))"

section \<open>\<open>tag2dict\<close>\<close>

text \<open>
  The key of one child, as the loop body computes it: the namespace is stripped when
  \<open>xmlns\<close> is given and not empty (\<open>if xmlns:\<close>), then the name is looked up in
  \<open>camel_lookup\<close> when there is one, with \<open>camel_to_snake\<close> of the name as the default.
\<close>

definition tag_name :: "(string \<rightharpoonup> string) option \<Rightarrow> string option \<Rightarrow> string \<Rightarrow> error + string" where
  "tag_name camel_lookup xmlns t =
     (case (case xmlns of None \<Rightarrow> Inr t
            | Some ns \<Rightarrow> if ns = [] then Inr t else strip_xmlns ns t) of
        Inl e \<Rightarrow> Inl e
      | Inr n \<Rightarrow>
          Inr (case camel_lookup of
                 None \<Rightarrow> camel_to_snake n
               | Some tbl \<Rightarrow> (case tbl n of None \<Rightarrow> camel_to_snake n | Some k \<Rightarrow> k)))"

text \<open>The value of one child: the chain of \<open>isinstance\<close> tests.\<close>

definition tag_value ::
  "(string \<Rightarrow> int option) \<Rightarrow> (string \<Rightarrow> 'f option) \<Rightarrow> element \<Rightarrow> error + 'f py_value" where
  "tag_value parse_int parse_float t =
     (case cls t of
        IntElement \<Rightarrow> map_sum id PyInt (py_int parse_int (etext t))
      | StringElement \<Rightarrow> Inr (PyStr (py_str (etext t)))
      | FloatElement \<Rightarrow> map_sum id PyFloat (py_float parse_float (etext t))
      | OtherElement \<Rightarrow> Inr (case etext t of None \<Rightarrow> PyNone | Some s \<Rightarrow> PyStr s))"

text \<open>
  The loop over \<open>element.iterchildren()\<close>. The dictionary is the list of its items in
  insertion order; \<open>output_dict[k] = v\<close> is \<open>AList.update\<close>, which replaces the value of a
  key in place and puts a new key at the end. The first exception ends the loop.
\<close>

fun tag2dict_loop ::
  "(string \<Rightarrow> int option) \<Rightarrow> (string \<Rightarrow> 'f option) \<Rightarrow> (string \<rightharpoonup> string) option \<Rightarrow>
   string option \<Rightarrow> element list \<Rightarrow> (string \<times> 'f py_value) list \<Rightarrow>
   error + (string \<times> 'f py_value) list" where
  "tag2dict_loop pi pf cl ns [] d = Inr d"
| "tag2dict_loop pi pf cl ns (t # ts) d =
     (case tag_name cl ns (tag t) of
        Inl e \<Rightarrow> Inl e
      | Inr k \<Rightarrow>
          (case tag_value pi pf t of
             Inl e \<Rightarrow> Inl e
           | Inr v \<Rightarrow> tag2dict_loop pi pf cl ns ts (AList.update k v d)))"

definition tag2dict ::
  "(string \<Rightarrow> int option) \<Rightarrow> (string \<Rightarrow> 'f option) \<Rightarrow> element \<Rightarrow> (string \<rightharpoonup> string) option \<Rightarrow>
   string option \<Rightarrow> error + (string \<times> 'f py_value) list" where
  "tag2dict pi pf element camel_lookup xmlns =
     tag2dict_loop pi pf camel_lookup xmlns (children element) []"

section \<open>\<open>XMLList\<close>\<close>

text \<open>
  The list with its \<open>version\<close> attribute; \<open>data\<close> is the list of records that the base
  class \<open>NamedList\<close> holds.
\<close>

record 'r xmllist =
  version :: int
  data :: "'r list"

text \<open>
  \<open>XMLList.__init__(version, initlist)\<close>: the base class stores the records of
  \<open>initlist\<close> (none when it is \<open>None\<close>), then \<open>int(version)\<close> is stored. The builtin
  \<open>int\<close> on the type of the argument is the parameter \<open>int_of\<close>.
\<close>

definition xmllist_init :: "('v \<Rightarrow> error + int) \<Rightarrow> 'v \<Rightarrow> 'r list \<Rightarrow> error + 'r xmllist" where
  "xmllist_init int_of v initlist =
     (case int_of v of
        Inl e \<Rightarrow> Inl e
      | Inr n \<Rightarrow> Inr \<lparr>version = n, data = initlist\<rparr>)"

text \<open>
  \<open>element.Version\<close>: \<open>lxml.objectify\<close> looks for the first child with that name in the
  namespace of the element itself and raises \<open>AttributeError\<close> when there is none.
\<close>

definition ns_prefix :: "string \<Rightarrow> string" where
  "ns_prefix t =
     (case t of
        [] \<Rightarrow> []
      | c # r \<Rightarrow>
          if c = CHR ''{'' \<and> CHR ''}'' \<in> set r
          then c # takeWhile (\<lambda>x. x \<noteq> CHR ''}'') r @ ''}''
          else [])"

definition getattr_child :: "element \<Rightarrow> string \<Rightarrow> error + element" where
  "getattr_child e name =
     (case find (\<lambda>c. tag c = ns_prefix (tag e) @ name) (children e) of
        None \<Rightarrow> Inl AttributeError
      | Some c \<Rightarrow> Inr c)"

text \<open>\<open>XMLList.from_xml(element)\<close>: \<open>cls(element.Version)\<close>.\<close>

definition from_xml :: "(element \<Rightarrow> error + int) \<Rightarrow> element \<Rightarrow> error + 'r xmllist" where
  "from_xml int_of e =
     (case getattr_child e ''Version'' of
        Inl err \<Rightarrow> Inl err
      | Inr v \<Rightarrow> xmllist_init int_of v [])"

text \<open>
  \<open>element.findall(name)\<close> for a name that is a tag: a plain name (letters, digits,
  \<open>_\<close>, \<open>-\<close> and \<open>.\<close>, not starting with a digit, \<open>-\<close> or \<open>.\<close>), or a plain name
  qualified by a namespace, \<open>{uri}name\<close>, where the namespace is not empty and not the
  wildcard \<open>*\<close>. The result is the direct children with exactly that tag, in document
  order. A name with operators of the path syntax is outside the model.
\<close>

definition plain_name :: "string \<Rightarrow> bool" where
  "plain_name n =
     (case n of
        [] \<Rightarrow> False
      | c # r \<Rightarrow>
          (is_upper c \<or> is_lower c \<or> c = CHR ''_'')
          \<and> list_all (\<lambda>x. is_upper x \<or> is_lower x \<or> is_digit x \<or> x \<in> set ''_-.'') r)"

definition qualified_name :: "string \<Rightarrow> bool" where
  "qualified_name n =
     (case n of
        [] \<Rightarrow> False
      | c # r \<Rightarrow>
          c = CHR ''{''
          \<and> takeWhile (\<lambda>x. x \<noteq> CHR ''}'') r \<noteq> []
          \<and> takeWhile (\<lambda>x. x \<noteq> CHR ''}'') r \<noteq> ''*''
          \<and> (case dropWhile (\<lambda>x. x \<noteq> CHR ''}'') r of
                [] \<Rightarrow> False
              | b # local_name \<Rightarrow> plain_name local_name))"

definition is_tag :: "string \<Rightarrow> bool" where
  "is_tag n = (plain_name n \<or> qualified_name n)"

definition findall :: "element \<Rightarrow> string \<Rightarrow> error + element list" where
  "findall e name =
     (if is_tag name then Inr (filter (\<lambda>c. tag c = name) (children e))
      else Inl OutsideModel)"

text \<open>
  \<open>make_from_element(element, name, class_)\<close> is a generator: it gives, one at a time and
  on demand, the outcome of \<open>class_.from_xml(item)\<close> for the items found. The model is the
  list of these outcomes; whoever consumes it stops at the first exception.
\<close>

definition make_from_element ::
  "element \<Rightarrow> string \<Rightarrow> (element \<Rightarrow> error + 'r) \<Rightarrow> error + (error + 'r) list" where
  "make_from_element e name class_from_xml =
     (case findall e name of
        Inl err \<Rightarrow> Inl err
      | Inr items \<Rightarrow> Inr (map class_from_xml items))"

text \<open>\<open>self.append(item)\<close>, of the base class.\<close>

definition append :: "'r xmllist \<Rightarrow> 'r \<Rightarrow> 'r xmllist" where
  "append l item = l\<lparr>data := data l @ [item]\<rparr>"

text \<open>
  \<open>XMLList._append_from_element(element)\<close>, for a class with the attributes
  \<open>_content_xml_name\<close> and \<open>_content_type\<close> (of the latter, its \<open>from_xml\<close>). The list is
  changed in place, so the result is the list as the call leaves it, with the exception
  that ended the call, if any: the records appended before an exception stay.
\<close>

fun append_items :: "'r xmllist \<Rightarrow> (error + 'r) list \<Rightarrow> 'r xmllist \<times> error option" where
  "append_items l [] = (l, None)"
| "append_items l (Inl err # rest) = (l, Some err)"
| "append_items l (Inr item # rest) = append_items (append l item) rest"

definition append_from_element ::
  "string \<Rightarrow> (element \<Rightarrow> error + 'r) \<Rightarrow> 'r xmllist \<Rightarrow> element \<Rightarrow> 'r xmllist \<times> error option" where
  "append_from_element content_xml_name content_from_xml l e =
     (case make_from_element e content_xml_name content_from_xml of
        Inl err \<Rightarrow> (l, Some err)
      | Inr outcomes \<Rightarrow> append_items l outcomes)"

text \<open>
  A parser calls \<open>_append_from_element\<close> on one element after another; an exception ends
  the sequence of calls.
\<close>

fun append_from_elements ::
  "string \<Rightarrow> (element \<Rightarrow> error + 'r) \<Rightarrow> 'r xmllist \<Rightarrow> element list \<Rightarrow> 'r xmllist \<times> error option" where
  "append_from_elements n f l [] = (l, None)"
| "append_from_elements n f l (e # es) =
     (case append_from_element n f l e of
        (l', Some err) \<Rightarrow> (l', Some err)
      | (l', None) \<Rightarrow> append_from_elements n f l' es)"

text \<open>
  The operations on a list that the source defines or calls after construction, and what
  each does to the list.
\<close>

datatype 'r xmllist_op = is_parse: AppendFromElement element | Append 'r

definition apply_op ::
  "string \<Rightarrow> (element \<Rightarrow> error + 'r) \<Rightarrow> 'r xmllist \<Rightarrow> 'r xmllist_op \<Rightarrow> 'r xmllist" where
  "apply_op n f l op =
     (case op of
        AppendFromElement e \<Rightarrow> fst (append_from_element n f l e)
      | Append item \<Rightarrow> append l item)"

section \<open>\<open>extract_metadata\<close>\<close>

text \<open>
  Modelled from the spec: \<open>is_datafile\<close> and \<open>extract_metadata\<close> are defined in
  \<open>pyms_agilent/metadata.py\<close>, which is not among the sources; only their tests are. By
  the spec the path must be path-like (\<open>TypeError\<close> otherwise, as the tests expect) and
  must be an existing directory whose name ends in the extension of the vendor's
  datafiles, \<open>.d\<close> (\<open>ValueError\<close> otherwise, as the tests expect); then the metadata files
  are parsed. The filesystem (\<open>is_dir\<close>) and the parsing of the files of a datafile
  (\<open>parse\<close>) are parameters.
\<close>

datatype path_arg = PathLike string | NotPathLike

definition has_datafile_extension :: "string \<Rightarrow> bool" where
  "has_datafile_extension p = (2 \<le> length p \<and> drop (length p - 2) p = ''.d'')"

definition is_datafile :: "(string \<Rightarrow> bool) \<Rightarrow> path_arg \<Rightarrow> error + bool" where
  "is_datafile is_dir arg =
     (case arg of
        NotPathLike \<Rightarrow> Inl TypeError
      | PathLike p \<Rightarrow> Inr (is_dir p \<and> has_datafile_extension p))"

definition extract_metadata ::
  "(string \<Rightarrow> bool) \<Rightarrow> (string \<Rightarrow> error + 'md) \<Rightarrow> path_arg \<Rightarrow> error + 'md" where
  "extract_metadata is_dir parse arg =
     (case arg of
        NotPathLike \<Rightarrow> Inl TypeError
      | PathLike p \<Rightarrow>
          (case is_datafile is_dir arg of
             Inl err \<Rightarrow> Inl err
           | Inr ok \<Rightarrow> if ok then parse p else Inl ValueError))"

section \<open>Sample data\<close>

text \<open>
  Concrete inputs on which the theorems below are evaluated: parsers that read the
  literals of the sample, with a float kept as the pair of its digits and its decimal
  exponent, and an element with a leaf of every class, an empty string leaf and a tag that
  occurs twice.
\<close>

definition sample_int :: "string \<Rightarrow> int option" where
  "sample_int s = (if s = ''42'' then Some 42 else if s = ''7'' then Some 7 else None)"

definition sample_float :: "string \<Rightarrow> (int \<times> int) option" where
  "sample_float s = (if s = ''1.5'' then Some (15, - 1) else None)"

definition sample_element :: element where
  "sample_element = Element ''SampleInfo'' None OtherElement
     [Element ''SampleName'' (Some ''QC1'') StringElement [],
      Element ''Count'' (Some ''42'') IntElement [],
      Element ''Ratio'' (Some ''1.5'') FloatElement [],
      Element ''Comment'' None StringElement [],
      Element ''Fields'' None OtherElement [Element ''Field'' (Some ''x'') StringElement []],
      Element ''Count'' (Some ''7'') IntElement []]"

definition sample_dict :: "(string \<times> (int \<times> int) py_value) list" where
  "sample_dict =
     [(''sample_name'', PyStr ''QC1''), (''count'', PyInt 7), (''ratio'', PyFloat (15, - 1)),
      (''comment'', PyStr ''None''), (''fields'', PyNone)]"

text \<open>
  A record type whose \<open>from_xml\<close> takes the text of the element and fails without text,
  three elements of a device list (the second without a \<open>Device\<close> child), a filesystem
  with one datafile directory, and a parser of its files.
\<close>

definition sample_record :: "element \<Rightarrow> error + string" where
  "sample_record c = (case etext c of None \<Rightarrow> Inl ValueError | Some s \<Rightarrow> Inr s)"

definition sample_devices :: "element list" where
  "sample_devices =
     [Element ''Devices'' None OtherElement
        [Element ''Version'' (Some ''1'') IntElement [],
         Element ''Device'' (Some ''pump'') StringElement [],
         Element ''Other'' (Some ''x'') StringElement [],
         Element ''Device'' (Some ''oven'') StringElement []],
      Element ''Devices'' None OtherElement
        [Element ''Other'' (Some ''y'') StringElement []],
      Element ''Devices'' None OtherElement
        [Element ''Device'' (Some ''detector'') StringElement []]]"

text \<open>
  A device list in a namespace: one child outside the namespace, and one record element
  without text, on which \<open>from_xml\<close> of the record type fails.
\<close>

definition sample_ns_devices :: element where
  "sample_ns_devices = Element ''{urn:dev}Devices'' None OtherElement
     [Element ''{urn:dev}Device'' (Some ''pump'') StringElement [],
      Element ''Device'' (Some ''plain'') StringElement [],
      Element ''{urn:dev}Device'' None StringElement [],
      Element ''{urn:dev}Device'' (Some ''oven'') StringElement []]"

definition sample_is_dir :: "string \<Rightarrow> bool" where
  "sample_is_dir p = (p = ''tests/run1.d'' \<or> p = ''tests'')"

definition sample_parse :: "string \<Rightarrow> error + string list" where
  "sample_parse p = Inr [''AcqMethod'', ''Contents'']"

section \<open>Auxiliary lemmas\<close>

lemma tag2dict_loop_Inr:
  "tag2dict_loop pi pf cl ns cs d0 = Inr d \<Longrightarrow>
   \<exists>ks vs. map (\<lambda>t. tag_name cl ns (tag t)) cs = map Inr ks
      \<and> map (tag_value pi pf) cs = map Inr vs
      \<and> d = AList.updates ks vs d0"
proof (induction cs arbitrary: d0)
  case Nil
  then show ?case by (simp add: AList.updates_def)
next
  case (Cons t ts)
  from Cons.prems obtain k v where k: "tag_name cl ns (tag t) = Inr k"
    and v: "tag_value pi pf t = Inr v"
    and r: "tag2dict_loop pi pf cl ns ts (AList.update k v d0) = Inr d"
    by (auto split: sum.splits)
  from Cons.IH [OF r] obtain ks vs where
    "map (\<lambda>t. tag_name cl ns (tag t)) ts = map Inr ks"
    "map (tag_value pi pf) ts = map Inr vs"
    "d = AList.updates ks vs (AList.update k v d0)" by blast
  then have "map (\<lambda>t. tag_name cl ns (tag t)) (t # ts) = map Inr (k # ks)
      \<and> map (tag_value pi pf) (t # ts) = map Inr (v # vs)
      \<and> d = AList.updates (k # ks) (v # vs) d0"
    using k v by (simp add: AList.updates_def)
  then show ?case by blast
qed

lemma remdups_drop_seen:
  "k \<in> set ys \<Longrightarrow> remdups (xs @ k # ys) = remdups (xs @ ys)"
  by (induction xs) auto

lemma keys_updates:
  "length ks = length vs \<Longrightarrow> distinct (map fst al) \<Longrightarrow>
   map fst (AList.updates ks vs al) = rev (remdups (rev (map fst al @ ks)))"
proof (induction ks arbitrary: vs al)
  case Nil
  then show ?case by (simp add: AList.updates_def distinct_remdups_id)
next
  case (Cons k ks)
  then obtain v vs' where vs: "vs = v # vs'" by (cases vs) auto
  have d: "distinct (map fst (AList.update k v al))"
    using Cons.prems(2) by (simp add: distinct_update)
  have "map fst (AList.updates (k # ks) vs al) = map fst (AList.updates ks vs' (AList.update k v al))"
    by (simp add: vs AList.updates_def)
  also have "\<dots> = rev (remdups (rev (map fst (AList.update k v al) @ ks)))"
    using Cons.IH [OF _ d, of vs'] Cons.prems(1) vs by simp
  also have "\<dots> = rev (remdups (rev (map fst al @ k # ks)))"
    by (auto simp: update_keys remdups_drop_seen image_iff)
  finally show ?case .
qed

lemma map_upds_last_wins:
  "length ks = length vs \<Longrightarrow> i < length ks \<Longrightarrow>
   \<forall>j<length ks. i < j \<longrightarrow> ks ! j \<noteq> ks ! i \<Longrightarrow>
   (m(ks [\<mapsto>] vs)) (ks ! i) = Some (vs ! i)"
proof (induction ks arbitrary: vs i m)
  case Nil
  then show ?case by simp
next
  case (Cons k ks)
  then obtain v vs' where vs: "vs = v # vs'" by (cases vs) auto
  show ?case
  proof (cases i)
    case 0
    have "k \<notin> set ks"
    proof
      assume "k \<in> set ks"
      then obtain j where "j < length ks" "ks ! j = k" by (auto simp: in_set_conv_nth)
      with Cons.prems(3) 0 show False by (auto dest: spec [of _ "Suc j"])
    qed
    then show ?thesis using 0 vs by (simp add: map_upds_apply_nontin)
  next
    case (Suc i')
    have "\<forall>j<length ks. i' < j \<longrightarrow> ks ! j \<noteq> ks ! i'"
      using Cons.prems(3) Suc by (auto dest: spec [of _ "Suc j" for j])
    moreover have "length ks = length vs'" "i' < length ks"
      using Cons.prems Suc vs by auto
    ultimately have "((m(k \<mapsto> v))(ks [\<mapsto>] vs')) (ks ! i') = Some (vs' ! i')"
      using Cons.IH [of vs' i' "m(k \<mapsto> v)"] by blast
    then show ?thesis using Suc vs by (simp del: fun_upd_apply)
  qed
qed

lemma tag2dict_loop_succeeds:
  "\<forall>t \<in> set cs. (\<exists>k. tag_name cl ns (tag t) = Inr k) \<and> (\<exists>v. tag_value pi pf t = Inr v) \<Longrightarrow>
   \<exists>d. tag2dict_loop pi pf cl ns cs d0 = Inr d"
  by (induction cs arbitrary: d0) auto

lemma tag2dict_Inr:
  assumes "tag2dict pi pf e cl ns = Inr d"
  shows "\<exists>ks vs. map (\<lambda>t. tag_name cl ns (tag t)) (children e) = map Inr ks
      \<and> map (tag_value pi pf) (children e) = map Inr vs
      \<and> length ks = length (children e) \<and> length vs = length (children e)
      \<and> d = AList.updates ks vs []"
proof -
  from tag2dict_loop_Inr [OF assms [unfolded tag2dict_def]] obtain ks vs where
    a: "map (\<lambda>t. tag_name cl ns (tag t)) (children e) = map Inr ks"
    and b: "map (tag_value pi pf) (children e) = map Inr vs"
    and c: "d = AList.updates ks vs []" by blast
  from a have "length ks = length (children e)" by (metis length_map)
  moreover from b have "length vs = length (children e)" by (metis length_map)
  ultimately show ?thesis using a b c by blast
qed

lemma tag2dict_last_value:
  assumes r: "tag2dict pi pf e cl ns = Inr d"
    and i: "i < length (children e)"
    and last: "\<forall>j<length (children e). i < j \<longrightarrow>
        tag_name cl ns (tag (children e ! j)) \<noteq> tag_name cl ns (tag (children e ! i))"
  shows "\<exists>k v. tag_name cl ns (tag (children e ! i)) = Inr k
      \<and> tag_value pi pf (children e ! i) = Inr v \<and> map_of d k = Some v"
proof -
  from tag2dict_Inr [OF r] obtain ks vs where
    a: "map (\<lambda>t. tag_name cl ns (tag t)) (children e) = map Inr ks"
    and b: "map (tag_value pi pf) (children e) = map Inr vs"
    and lk: "length ks = length (children e)" and lv: "length vs = length (children e)"
    and d: "d = AList.updates ks vs []" by blast
  have k: "tag_name cl ns (tag (children e ! j)) = Inr (ks ! j)" if "j < length (children e)" for j
    using that lk nth_map [of j "children e" "\<lambda>t. tag_name cl ns (tag t)"]
      nth_map [of j ks Inr] a by simp
  have v: "tag_value pi pf (children e ! j) = Inr (vs ! j)" if "j < length (children e)" for j
    using that lv nth_map [of j "children e" "tag_value pi pf"]
      nth_map [of j vs Inr] b by simp
  have "\<forall>j<length ks. i < j \<longrightarrow> ks ! j \<noteq> ks ! i"
    using last k i lk by auto
  then have "(Map.empty(ks [\<mapsto>] vs)) (ks ! i) = Some (vs ! i)"
    using map_upds_last_wins [of ks vs i Map.empty] lk lv i by simp
  then have "map_of d (ks ! i) = Some (vs ! i)"
    by (simp add: d updates_conv')
  with k [OF i] v [OF i] show ?thesis by blast
qed

lemma sample_tag2dict:
  "tag2dict sample_int sample_float sample_element None None = Inr sample_dict"
  by code_simp

lemma sample_children: "length (children sample_element) = 6"
  by (simp add: sample_element_def)

text \<open>The namespace is stripped when it has no operator of the pattern syntax.\<close>

lemma re_items_plain:
  "CHR ''+'' \<notin> set p \<Longrightarrow> re_items p = map (\<lambda>c. (c, False)) p"
  by (induction p rule: re_items.induct) auto

lemma re_match_prefix_self:
  "re_match_prefix (map (\<lambda>c. (c, False)) p) (p @ s) = Some s"
  by (induction p) (auto simp: re_atom_matches_def)

lemma strip_xmlns_present:
  assumes "\<not> (\<exists>c \<in> set ns. re_operator c)" "CHR ''+'' \<notin> set ns" "\<not> repeat_body ns"
  shows "strip_xmlns ns (''{'' @ ns @ ''}'' @ name) = Inr name"
proof -
  have p: "CHR ''+'' \<notin> set (''{'' @ ns @ ''}'')" using assms(2) by simp
  have "re_match_prefix (re_items (''{'' @ ns @ ''}'')) ((''{'' @ ns @ ''}'') @ name) = Some name"
    unfolding re_items_plain [OF p] by (rule re_match_prefix_self)
  moreover have "\<not> (\<exists>i \<in> set (re_items (''{'' @ ns @ ''}'')). fst i = CHR ''+'')"
    unfolding re_items_plain [OF p] using assms(2) by auto
  ultimately show ?thesis using assms(1,3) by (simp add: strip_xmlns_def)
qed

text \<open>
  \<open>camel_to_snake\<close> leaves a name without capital letters as it is, so applying it twice
  is applying it once.
\<close>

lemma sub_case_boundary_no_upper:
  "\<forall>c \<in> set s. \<not> is_upper c \<Longrightarrow> sub_case_boundary s = s"
  by (induction s rule: sub_case_boundary.induct) auto

lemma sub_single_letters_no_upper:
  "\<forall>c \<in> set s. \<not> is_upper c \<Longrightarrow> sub_single_letters s = s"
  by (induction s rule: sub_single_letters.induct) auto

lemma lower_char_not_upper: "\<not> is_upper (lower_char c)"
  by (auto simp: lower_char_def is_upper_def)

lemma camel_to_snake_snake:
  assumes "\<forall>c \<in> set s. \<not> is_upper c"
  shows "camel_to_snake s = s"
proof -
  have "map lower_char s = s"
    using assms by (induction s) (auto simp: lower_char_def)
  then show ?thesis
    using assms by (simp add: camel_to_snake_def sub_case_boundary_no_upper sub_single_letters_no_upper)
qed

lemma camel_to_snake_idem: "camel_to_snake (camel_to_snake s) = camel_to_snake s"
  by (rule camel_to_snake_snake) (auto simp: camel_to_snake_def lower_char_not_upper)

text \<open>
  The key of a child: the override table first, \<open>camel_to_snake\<close> otherwise, after the
  namespace has been stripped.
\<close>

lemma tag_name_rule:
  "tag_name None None t = Inr (camel_to_snake t)"
  "tbl t = Some k \<Longrightarrow> tag_name (Some tbl) None t = Inr k"
  "tbl t = None \<Longrightarrow> tag_name (Some tbl) None t = Inr (camel_to_snake t)"
  "tag_name cl (Some []) t = tag_name cl None t"
  "ns \<noteq> [] \<Longrightarrow> \<not> (\<exists>c \<in> set ns. re_operator c) \<Longrightarrow> CHR ''+'' \<notin> set ns \<Longrightarrow> \<not> repeat_body ns \<Longrightarrow>
     tag_name cl (Some ns) (''{'' @ ns @ ''}'' @ t) = tag_name cl None t"
  using strip_xmlns_present [of ns t] by (simp_all add: tag_name_def)

text \<open>What a call of \<open>_append_from_element\<close> that raises nothing has done.\<close>

lemma append_items_None:
  "append_items l outs = (l', None) \<Longrightarrow>
   \<exists>rs. outs = map Inr rs \<and> l' = l\<lparr>data := data l @ rs\<rparr>"
proof (induction outs arbitrary: l)
  case Nil
  then show ?case by simp
next
  case (Cons x outs)
  then obtain r where o: "x = Inr r" by (cases x) auto
  with Cons.prems have "append_items (append l r) outs = (l', None)" by simp
  from Cons.IH [OF this] obtain rs where
    "outs = map Inr rs" "l' = (append l r)\<lparr>data := data (append l r) @ rs\<rparr>" by blast
  then have "x # outs = map Inr (r # rs) \<and> l' = l\<lparr>data := data l @ (r # rs)\<rparr>"
    using o by (simp add: append_def)
  then show ?case by (rule exI [of _ "r # rs"])
qed

lemma append_items_frame:
  "version (fst (append_items l outs)) = version l
   \<and> (\<exists>rs. data (fst (append_items l outs)) = data l @ rs)"
proof (induction outs arbitrary: l)
  case Nil
  then show ?case by simp
next
  case (Cons x outs)
  show ?case
  proof (cases x)
    case (Inl err)
    then show ?thesis by simp
  next
    case (Inr r)
    from Cons.IH [of "append l r"] obtain rs where
      "version (fst (append_items (append l r) outs)) = version l"
      "data (fst (append_items (append l r) outs)) = data l @ r # rs"
      by (auto simp: append_def)
    then show ?thesis using Inr by auto
  qed
qed

lemma append_from_element_None:
  assumes "append_from_element n f l e = (l', None)"
  shows "\<exists>rs. map f (filter (\<lambda>c. tag c = n) (children e)) = map Inr rs
      \<and> l' = l\<lparr>data := data l @ rs\<rparr>"
proof -
  from assms have "append_items l (map f (filter (\<lambda>c. tag c = n) (children e))) = (l', None)"
    by (auto simp: append_from_element_def make_from_element_def findall_def split: if_splits)
  from append_items_None [OF this] obtain rs where
    "map f (filter (\<lambda>c. tag c = n) (children e)) = map Inr rs \<and> l' = l\<lparr>data := data l @ rs\<rparr>"
    by auto
  then show ?thesis by (rule exI [of _ rs])
qed

lemma append_from_elements_None:
  "append_from_elements n f l es = (l', None) \<Longrightarrow>
   \<exists>rs. map f (concat (map (\<lambda>e. filter (\<lambda>c. tag c = n) (children e)) es)) = map Inr rs
      \<and> l' = l\<lparr>data := data l @ rs\<rparr>"
proof (induction es arbitrary: l)
  case Nil
  then show ?case by simp
next
  case (Cons e es)
  obtain l1 x where c: "append_from_element n f l e = (l1, x)" by (cases "append_from_element n f l e")
  with Cons.prems have x: "x = None" and r: "append_from_elements n f l1 es = (l', None)"
    by (auto split: option.splits)
  from append_from_element_None [OF c [unfolded x]] obtain rs1 where
    a: "map f (filter (\<lambda>c. tag c = n) (children e)) = map Inr rs1"
    and b: "l1 = l\<lparr>data := data l @ rs1\<rparr>" by blast
  from Cons.IH [OF r] obtain rs2 where
    a2: "map f (concat (map (\<lambda>e. filter (\<lambda>c. tag c = n) (children e)) es)) = map Inr rs2"
    and b2: "l' = l1\<lparr>data := data l1 @ rs2\<rparr>" by blast
  have "map f (concat (map (\<lambda>e. filter (\<lambda>c. tag c = n) (children e)) (e # es)))
      = map Inr (rs1 @ rs2) \<and> l' = l\<lparr>data := data l @ (rs1 @ rs2)\<rparr>"
    using a a2 b b2 by simp
  then show ?case by (rule exI [of _ "rs1 @ rs2"])
qed

text \<open>
  What a call does: it appends the records of the matching children up to the first one
  on which \<open>from_xml\<close> fails, and raises the exception of that one, if any.
\<close>

lemma append_items_all:
  "append_items l (map Inr rs) = (l\<lparr>data := data l @ rs\<rparr>, None)"
  by (induction rs arbitrary: l) (simp_all add: append_def)

lemma append_items_raise:
  "append_items l (map Inr rs @ Inl err # rest) = (l\<lparr>data := data l @ rs\<rparr>, Some err)"
  by (induction rs arbitrary: l) (simp_all add: append_def)

lemma append_from_element_all:
  assumes "is_tag n" "map f (filter (\<lambda>c. tag c = n) (children e)) = map Inr rs"
  shows "append_from_element n f l e = (l\<lparr>data := data l @ rs\<rparr>, None)"
  using assms
  by (simp add: append_from_element_def make_from_element_def findall_def append_items_all)

lemma append_from_element_raise:
  assumes "is_tag n" "filter (\<lambda>c. tag c = n) (children e) = xs @ c # ys"
    "map f xs = map Inr rs" "f c = Inl err"
  shows "append_from_element n f l e = (l\<lparr>data := data l @ rs\<rparr>, Some err)"
  using assms append_items_raise [of l rs err "map f ys"]
  by (simp add: append_from_element_def make_from_element_def findall_def)

lemma append_from_elements_all:
  "is_tag n \<Longrightarrow>
   map f (concat (map (\<lambda>e. filter (\<lambda>c. tag c = n) (children e)) es)) = map Inr rs \<Longrightarrow>
   append_from_elements n f l es = (l\<lparr>data := data l @ rs\<rparr>, None)"
proof (induction es arbitrary: l rs)
  case Nil
  then show ?case by simp
next
  case (Cons e es)
  from Cons.prems(2) have
    "map f (filter (\<lambda>c. tag c = n) (children e))
       @ map f (concat (map (\<lambda>e. filter (\<lambda>c. tag c = n) (children e)) es)) = map Inr rs"
    by simp
  then obtain r1 r2 where rs: "rs = r1 @ r2"
    and a: "map f (filter (\<lambda>c. tag c = n) (children e)) = map Inr r1"
    and b: "map f (concat (map (\<lambda>e. filter (\<lambda>c. tag c = n) (children e)) es)) = map Inr r2"
    by (auto simp: append_eq_map_conv)
  have "append_from_element n f l e = (l\<lparr>data := data l @ r1\<rparr>, None)"
    by (rule append_from_element_all [OF Cons.prems(1) a])
  moreover have "append_from_elements n f (l\<lparr>data := data l @ r1\<rparr>) es
      = (l\<lparr>data := data l @ r1\<rparr>\<lparr>data := data (l\<lparr>data := data l @ r1\<rparr>) @ r2\<rparr>, None)"
    by (rule Cons.IH [OF Cons.prems(1) b])
  ultimately show ?case by (simp add: rs)
qed

section \<open>Enum resolution: properties\<close>

text \<open>
  C1. A value that is not a member already is coerced with the function \<open>ty\<close> (the
  argument \<open>type_\<close> of the source) and the coerced value is looked up in the enumeration:
  when it has a member, that member is returned; when it has none, the call fails with
  \<open>ValueError\<close>; and whatever is returned is a member defined with the coerced value,
  never a default.
\<close>

theorem get_from_enum_raw:
  "(ty r = Inr c \<and> map_of enum c = Some m \<longrightarrow> get_from_enum (Raw r) enum ty = Inr m)
   \<and> (ty r = Inr c \<and> map_of enum c = None \<longrightarrow> get_from_enum (Raw r) enum ty = Inl ValueError)
   \<and> (get_from_enum (Raw r) enum ty = Inr m' \<longrightarrow>
        (\<exists>c'. ty r = Inr c' \<and> (c', m') \<in> set enum))"
  by (auto simp: get_from_enum_def enum_call_def split: sum.splits option.splits
      dest: map_of_SomeD)

theorem get_from_enum_raw_witness:
  "get_from_enum (Raw ''2'') [(''1'', 10::nat), (''2'', 20)] Inr = Inr 20
   \<and> get_from_enum (Raw ''7'') [(''1'', 10::nat), (''2'', 20)] Inr = Inl ValueError"
  using get_from_enum_raw [of Inr "''2''" "''2''" "[(''1'', 10::nat), (''2'', 20)]" 20]
    get_from_enum_raw [of Inr "''7''" "''7''" "[(''1'', 10::nat), (''2'', 20)]"]
  by simp

text \<open>
  C8. A value that is an instance of the enumeration is returned unchanged, and resolving
  the result of a successful resolution again gives the same result.
\<close>

theorem get_from_enum_idempotent:
  "get_from_enum (Member m) enum ty = Inr m
   \<and> (get_from_enum v enum ty = Inr m' \<longrightarrow>
        get_from_enum (Member m') enum ty = get_from_enum v enum ty)"
  by (simp add: get_from_enum_def)

theorem get_from_enum_idempotent_witness:
  "get_from_enum (Raw ''2'') [(''1'', 10::nat), (''2'', 20)] Inr = Inr 20
   \<and> get_from_enum (Member 20) [(''1'', 10::nat), (''2'', 20)] Inr
       = get_from_enum (Raw ''2'') [(''1'', 10::nat), (''2'', 20)] (Inr :: string \<Rightarrow> error + string)"
  using get_from_enum_idempotent [of 20 "[(''1'', 10::nat), (''2'', 20)]" Inr "Raw ''2''" 20]
  by (simp add: get_from_enum_def enum_call_def)

section \<open>\<open>tag2dict\<close>: properties\<close>

text \<open>
  C2. When \<open>tag2dict\<close> returns, the value of each child is the one its class asks for:
  \<open>int(text)\<close> for an \<open>IntElement\<close>, \<open>float(text)\<close> for a \<open>FloatElement\<close>, \<open>str(text)\<close>
  for a \<open>StringElement\<close> and the text itself otherwise; the value stands in the dictionary
  under the key of the child when no later child has the same key. The first two can
  raise, the last two cannot: an element whose children are all of the last two kinds is
  converted without an error (no namespace being stripped).
\<close>

theorem tag2dict_value_by_class:
  "(cls t = IntElement \<longrightarrow> tag_value pi pf t =
       (case etext t of None \<Rightarrow> Inl TypeError
        | Some s \<Rightarrow> (case pi s of None \<Rightarrow> Inl ValueError | Some n \<Rightarrow> Inr (PyInt n))))
   \<and> (cls t = FloatElement \<longrightarrow> tag_value pi pf t =
       (case etext t of None \<Rightarrow> Inl TypeError
        | Some s \<Rightarrow> (case pf s of None \<Rightarrow> Inl ValueError | Some x \<Rightarrow> Inr (PyFloat x))))
   \<and> (cls t = StringElement \<longrightarrow> tag_value pi pf t =
       Inr (PyStr (case etext t of None \<Rightarrow> ''None'' | Some s \<Rightarrow> s)))
   \<and> (cls t = OtherElement \<longrightarrow> tag_value pi pf t =
       Inr (case etext t of None \<Rightarrow> PyNone | Some s \<Rightarrow> PyStr s))
   \<and> (tag2dict pi pf e cl ns = Inr d \<and> i < length (children e)
       \<and> (\<forall>j<length (children e). i < j \<longrightarrow>
            tag_name cl ns (tag (children e ! j)) \<noteq> tag_name cl ns (tag (children e ! i)))
       \<longrightarrow> (\<exists>k v. tag_name cl ns (tag (children e ! i)) = Inr k
              \<and> tag_value pi pf (children e ! i) = Inr v \<and> map_of d k = Some v))
   \<and> ((\<forall>c \<in> set (children e). cls c = OtherElement \<or> cls c = StringElement)
       \<longrightarrow> (\<exists>d'. tag2dict pi pf e cl None = Inr d'))"
proof -
  have 1: "cls t = IntElement \<longrightarrow> tag_value pi pf t =
       (case etext t of None \<Rightarrow> Inl TypeError
        | Some s \<Rightarrow> (case pi s of None \<Rightarrow> Inl ValueError | Some n \<Rightarrow> Inr (PyInt n)))"
    by (simp add: tag_value_def py_int_def split: option.splits)
  have 2: "cls t = FloatElement \<longrightarrow> tag_value pi pf t =
       (case etext t of None \<Rightarrow> Inl TypeError
        | Some s \<Rightarrow> (case pf s of None \<Rightarrow> Inl ValueError | Some x \<Rightarrow> Inr (PyFloat x)))"
    by (simp add: tag_value_def py_float_def split: option.splits)
  have 3: "cls t = StringElement \<longrightarrow> tag_value pi pf t =
       Inr (PyStr (case etext t of None \<Rightarrow> ''None'' | Some s \<Rightarrow> s))"
    by (simp add: tag_value_def py_str_def)
  have 4: "cls t = OtherElement \<longrightarrow> tag_value pi pf t =
       Inr (case etext t of None \<Rightarrow> PyNone | Some s \<Rightarrow> PyStr s)"
    by (simp add: tag_value_def)
  have 5: "tag2dict pi pf e cl ns = Inr d \<and> i < length (children e)
       \<and> (\<forall>j<length (children e). i < j \<longrightarrow>
            tag_name cl ns (tag (children e ! j)) \<noteq> tag_name cl ns (tag (children e ! i)))
       \<longrightarrow> (\<exists>k v. tag_name cl ns (tag (children e ! i)) = Inr k
              \<and> tag_value pi pf (children e ! i) = Inr v \<and> map_of d k = Some v)"
    using tag2dict_last_value [of pi pf e cl ns d i] by blast
  have 6: "(\<forall>c \<in> set (children e). cls c = OtherElement \<or> cls c = StringElement)
       \<longrightarrow> (\<exists>d'. tag2dict pi pf e cl None = Inr d')"
  proof
    assume h: "\<forall>c \<in> set (children e). cls c = OtherElement \<or> cls c = StringElement"
    have "\<forall>c \<in> set (children e). (\<exists>k. tag_name cl None (tag c) = Inr k)
        \<and> (\<exists>v. tag_value pi pf c = Inr v)"
      using h by (auto simp: tag_name_def tag_value_def)
    from tag2dict_loop_succeeds [OF this] show "\<exists>d'. tag2dict pi pf e cl None = Inr d'"
      by (simp add: tag2dict_def)
  qed
  from 1 2 3 4 5 6 show ?thesis by blast
qed

theorem tag2dict_value_by_class_witness:
  "tag2dict sample_int sample_float sample_element None None = Inr sample_dict
   \<and> map_of sample_dict ''count'' = Some (PyInt 7)
   \<and> map_of sample_dict ''ratio'' = Some (PyFloat (15, - 1))
   \<and> map_of sample_dict ''sample_name'' = Some (PyStr ''QC1'')
   \<and> map_of sample_dict ''fields'' = Some PyNone
   \<and> (\<exists>k v. tag_name None None (tag (children sample_element ! 5)) = Inr k
         \<and> tag_value sample_int sample_float (children sample_element ! 5) = Inr v
         \<and> map_of sample_dict k = Some v)"
proof -
  have "\<forall>j<length (children sample_element). 5 < j \<longrightarrow>
      tag_name None None (tag (children sample_element ! j))
        \<noteq> tag_name None None (tag (children sample_element ! 5))"
    by (simp add: sample_children)
  with tag2dict_value_by_class [of _ sample_int sample_float sample_element None None sample_dict 5]
    sample_tag2dict sample_children
  have "\<exists>k v. tag_name None None (tag (children sample_element ! 5)) = Inr k
         \<and> tag_value sample_int sample_float (children sample_element ! 5) = Inr v
         \<and> map_of sample_dict k = Some v" by simp
  then show ?thesis using sample_tag2dict by (simp add: sample_dict_def)
qed

text \<open>
  C6. When several children have the same key, the dictionary has the key once, with the
  value of the last of them; the keys stand in the order in which they first occur among
  the children (\<open>rev (remdups (rev ks))\<close> keeps the first occurrence of each key).
\<close>

theorem tag2dict_duplicate_keys:
  assumes "tag2dict pi pf e cl ns = Inr d"
  shows "\<exists>ks vs. map (\<lambda>t. tag_name cl ns (tag t)) (children e) = map Inr ks
      \<and> map (tag_value pi pf) (children e) = map Inr vs
      \<and> distinct (map fst d)
      \<and> set (map fst d) = set ks
      \<and> map fst d = rev (remdups (rev ks))
      \<and> (\<forall>i<length ks. (\<forall>j<length ks. i < j \<longrightarrow> ks ! j \<noteq> ks ! i)
            \<longrightarrow> map_of d (ks ! i) = Some (vs ! i))"
proof -
  from tag2dict_Inr [OF assms] obtain ks vs where
    a: "map (\<lambda>t. tag_name cl ns (tag t)) (children e) = map Inr ks"
    and b: "map (tag_value pi pf) (children e) = map Inr vs"
    and lk: "length ks = length (children e)" and lv: "length vs = length (children e)"
    and d: "d = AList.updates ks vs []" by blast
  have o: "map fst d = rev (remdups (rev ks))"
    using keys_updates [of ks vs "[]"] lk lv d by simp
  then have "distinct (map fst d)" "set (map fst d) = set ks" by simp_all
  moreover have "\<forall>i<length ks. (\<forall>j<length ks. i < j \<longrightarrow> ks ! j \<noteq> ks ! i)
            \<longrightarrow> map_of d (ks ! i) = Some (vs ! i)"
    using map_upds_last_wins [of ks vs _ Map.empty] lk lv
    by (simp add: d updates_conv')
  ultimately show ?thesis using a b o by blast
qed

theorem tag2dict_duplicate_keys_witness:
  "tag2dict sample_int sample_float sample_element None None = Inr sample_dict
   \<and> distinct (map fst sample_dict)
   \<and> map fst sample_dict = [''sample_name'', ''count'', ''ratio'', ''comment'', ''fields'']
   \<and> map_of sample_dict ''count'' = Some (PyInt 7)"
proof -
  from tag2dict_duplicate_keys [OF sample_tag2dict]
  have "distinct (map fst sample_dict)" by blast
  then show ?thesis using sample_tag2dict by (simp add: sample_dict_def)
qed

text \<open>
  C10. A \<open>StringElement\<close> child without text gets the value \<open>str(None)\<close>, the string
  \<open>None\<close> of four characters: not the empty string and not \<open>None\<close>.
\<close>

theorem tag2dict_empty_string_leaf:
  "(cls t = StringElement \<and> etext t = None \<longrightarrow> tag_value pi pf t = Inr (PyStr ''None''))
   \<and> (tag2dict pi pf e cl ns = Inr d \<and> i < length (children e)
       \<and> cls (children e ! i) = StringElement \<and> etext (children e ! i) = None
       \<and> (\<forall>j<length (children e). i < j \<longrightarrow>
            tag_name cl ns (tag (children e ! j)) \<noteq> tag_name cl ns (tag (children e ! i)))
       \<longrightarrow> (\<exists>k. tag_name cl ns (tag (children e ! i)) = Inr k
              \<and> map_of d k = Some (PyStr ''None'')))"
proof -
  have 1: "cls t = StringElement \<and> etext t = None \<longrightarrow> tag_value pi pf t = Inr (PyStr ''None'')"
    for t :: element
    by (simp add: tag_value_def py_str_def)
  have 2: "tag2dict pi pf e cl ns = Inr d \<and> i < length (children e)
       \<and> cls (children e ! i) = StringElement \<and> etext (children e ! i) = None
       \<and> (\<forall>j<length (children e). i < j \<longrightarrow>
            tag_name cl ns (tag (children e ! j)) \<noteq> tag_name cl ns (tag (children e ! i)))
       \<longrightarrow> (\<exists>k. tag_name cl ns (tag (children e ! i)) = Inr k
              \<and> map_of d k = Some (PyStr ''None''))"
    using tag2dict_last_value [of pi pf e cl ns d i] 1 [of "children e ! i"] by fastforce
  from 1 2 show ?thesis by blast
qed

theorem tag2dict_empty_string_leaf_witness:
  "tag2dict sample_int sample_float sample_element None None = Inr sample_dict
   \<and> cls (children sample_element ! 3) = StringElement
   \<and> etext (children sample_element ! 3) = None
   \<and> tag_name None None (tag (children sample_element ! 3)) = Inr ''comment''
   \<and> map_of sample_dict ''comment'' = Some (PyStr ''None'')
   \<and> PyStr ''None'' \<noteq> (PyStr '''' :: (int \<times> int) py_value)
   \<and> PyStr ''None'' \<noteq> (PyNone :: (int \<times> int) py_value)"
proof -
  have n: "tag_name None None (tag (children sample_element ! 3)) = Inr ''comment''"
    by code_simp
  have c: "cls (children sample_element ! 3) = StringElement"
    "etext (children sample_element ! 3) = None"
    by (simp_all add: sample_element_def)
  have l: "\<forall>j<length (children sample_element). 3 < j \<longrightarrow>
      tag_name None None (tag (children sample_element ! j))
        \<noteq> tag_name None None (tag (children sample_element ! 3))"
  proof (intro allI impI)
    fix j assume "j < length (children sample_element)" "3 < j"
    then have "j = 4 \<or> j = 5" using sample_children by auto
    moreover have "tag_name None None (tag (children sample_element ! 4)) = Inr ''fields''"
      "tag_name None None (tag (children sample_element ! 5)) = Inr ''count''"
      by code_simp+
    ultimately show "tag_name None None (tag (children sample_element ! j))
        \<noteq> tag_name None None (tag (children sample_element ! 3))"
      using n by auto
  qed
  from tag2dict_empty_string_leaf
    [of _ sample_int sample_float sample_element None None sample_dict 3]
    sample_tag2dict sample_children c l n
  have "map_of sample_dict ''comment'' = Some (PyStr ''None'')" by auto
  then show ?thesis using sample_tag2dict n c by simp
qed

text \<open>
  C7. The key of a child is the name looked up in the override table, or else
  \<open>camel_to_snake\<close> of the name, after the namespace has been stripped (lemma
  \<open>tag_name_rule\<close>; \<open>camel_to_snake\<close> is idempotent, lemma \<open>camel_to_snake_idem\<close>). But the
  namespace is put into the pattern as it is, not escaped: with the namespace
  \<open>urn:acq+ms\<close> the plus sign is read as a repetition, the pattern does not match the tag
  \<open>{urn:acq+ms}SampleName\<close>, and the key keeps the prefix, where the same tag in the
  namespace \<open>urn:acq-ms\<close> gets the key \<open>sample_name\<close>.
\<close>

theorem tag2dict_xmlns_not_escaped:
  "strip_xmlns ''urn:acq+ms'' ''{urn:acq+ms}SampleName'' = Inr ''{urn:acq+ms}SampleName''
   \<and> tag2dict sample_int sample_float
       (Element ''SampleInfo'' None OtherElement
          [Element ''{urn:acq+ms}SampleName'' (Some ''QC1'') StringElement []])
       None (Some ''urn:acq+ms'')
     = Inr [(''{urn:acq+ms}_sample_name'', PyStr ''QC1'')]
   \<and> tag2dict sample_int sample_float
       (Element ''SampleInfo'' None OtherElement
          [Element ''{urn:acq-ms}SampleName'' (Some ''QC1'') StringElement []])
       None (Some ''urn:acq-ms'')
     = Inr [(''sample_name'', PyStr ''QC1'')]"
  by code_simp

section \<open>\<open>XMLList\<close>: properties\<close>

text \<open>
  C3. A call of \<open>_append_from_element\<close> (the name \<open>_content_xml_name\<close> being a tag)
  takes the direct children of the element with that tag in document order and appends
  \<open>from_xml\<close> of each; when \<open>from_xml\<close> succeeds on all of them, all are appended and
  nothing is raised; when it fails on one, the records before it stay appended and its
  exception is raised. A sequence of calls on which \<open>from_xml\<close> succeeds throughout
  appends the records of all calls, in the order of the calls, and raises nothing.
  Conversely, after a sequence of calls that raised nothing, the list has grown by the
  number of matching children, summed over the calls, the new records are the results of
  \<open>from_xml\<close> on them in that order, and the version is the same. A call on an element
  without a matching child changes nothing and raises nothing.
\<close>

theorem append_from_element_length:
  "(is_tag n \<and> map f (filter (\<lambda>c. tag c = n) (children e)) = map Inr rs \<longrightarrow>
      append_from_element n f l e = (l\<lparr>data := data l @ rs\<rparr>, None))
   \<and> (is_tag n \<and> filter (\<lambda>c. tag c = n) (children e) = xs @ c # ys
        \<and> map f xs = map Inr rs \<and> f c = Inl err \<longrightarrow>
      append_from_element n f l e = (l\<lparr>data := data l @ rs\<rparr>, Some err))
   \<and> (is_tag n
        \<and> map f (concat (map (\<lambda>e. filter (\<lambda>c. tag c = n) (children e)) es)) = map Inr rs \<longrightarrow>
      append_from_elements n f l es = (l\<lparr>data := data l @ rs\<rparr>, None))
   \<and> (append_from_elements n f l es = (l', None) \<longrightarrow>
      length (data l') = length (data l)
         + sum_list (map (\<lambda>e. length (filter (\<lambda>c. tag c = n) (children e))) es)
      \<and> (\<exists>rs. map f (concat (map (\<lambda>e. filter (\<lambda>c. tag c = n) (children e)) es)) = map Inr rs
            \<and> data l' = data l @ rs)
      \<and> version l' = version l)
   \<and> (is_tag n \<and> filter (\<lambda>c. tag c = n) (children e) = [] \<longrightarrow>
        append_from_element n f l e = (l, None))"
proof (intro conjI impI)
  assume "is_tag n \<and> map f (filter (\<lambda>c. tag c = n) (children e)) = map Inr rs"
  then show "append_from_element n f l e = (l\<lparr>data := data l @ rs\<rparr>, None)"
    using append_from_element_all by blast
next
  assume "is_tag n \<and> filter (\<lambda>c. tag c = n) (children e) = xs @ c # ys
        \<and> map f xs = map Inr rs \<and> f c = Inl err"
  then show "append_from_element n f l e = (l\<lparr>data := data l @ rs\<rparr>, Some err)"
    using append_from_element_raise by blast
next
  assume "is_tag n
        \<and> map f (concat (map (\<lambda>e. filter (\<lambda>c. tag c = n) (children e)) es)) = map Inr rs"
  then show "append_from_elements n f l es = (l\<lparr>data := data l @ rs\<rparr>, None)"
    using append_from_elements_all by blast
next
  assume a: "append_from_elements n f l es = (l', None)"
  from append_from_elements_None [OF a] obtain rs where
    m: "map f (concat (map (\<lambda>e. filter (\<lambda>c. tag c = n) (children e)) es)) = map Inr rs"
    and l': "l' = l\<lparr>data := data l @ rs\<rparr>" by blast
  from m have "length rs = length (concat (map (\<lambda>e. filter (\<lambda>c. tag c = n) (children e)) es))"
    by (metis length_map)
  then show "length (data l') = length (data l)
         + sum_list (map (\<lambda>e. length (filter (\<lambda>c. tag c = n) (children e))) es)"
    using l' by (simp add: length_concat comp_def)
  show "\<exists>rs. map f (concat (map (\<lambda>e. filter (\<lambda>c. tag c = n) (children e)) es)) = map Inr rs
            \<and> data l' = data l @ rs"
    using m l' by auto
  show "version l' = version l" using l' by simp
next
  assume "is_tag n \<and> filter (\<lambda>c. tag c = n) (children e) = []"
  then show "append_from_element n f l e = (l, None)"
    by (simp add: append_from_element_def make_from_element_def findall_def)
qed

theorem append_from_element_length_witness:
  "append_from_elements ''Device'' sample_record \<lparr>version = 1, data = []\<rparr> sample_devices
     = (\<lparr>version = 1, data = [''pump'', ''oven'', ''detector'']\<rparr>, None)
   \<and> length (data \<lparr>version = 1, data = [''pump'', ''oven'', ''detector'']\<rparr>)
     = length (data \<lparr>version = 1, data = ([] :: string list)\<rparr>)
       + sum_list (map (\<lambda>e. length (filter (\<lambda>c. tag c = ''Device'') (children e))) sample_devices)
   \<and> sum_list (map (\<lambda>e. length (filter (\<lambda>c. tag c = ''Device'') (children e))) sample_devices) = 3
   \<and> append_from_element ''{urn:dev}Device'' sample_record \<lparr>version = 1, data = []\<rparr>
       sample_ns_devices = (\<lparr>version = 1, data = [''pump'']\<rparr>, Some ValueError)
   \<and> append_from_element ''Device'' sample_record \<lparr>version = 1, data = [''pump'']\<rparr>
       (sample_devices ! 1) = (\<lparr>version = 1, data = [''pump'']\<rparr>, None)"
proof -
  have p: "is_tag ''Device''" "is_tag ''{urn:dev}Device''"
    by (simp_all add: is_tag_def plain_name_def qualified_name_def is_upper_def is_lower_def
        is_digit_def)
  have z: "filter (\<lambda>c. tag c = ''Device'') (children (sample_devices ! 1)) = []"
    by (simp add: sample_devices_def)
  have s: "sum_list (map (\<lambda>e. length (filter (\<lambda>c. tag c = ''Device'') (children e))) sample_devices) = 3"
    by (simp add: sample_devices_def)
  have m: "map sample_record
      (concat (map (\<lambda>e. filter (\<lambda>c. tag c = ''Device'') (children e)) sample_devices))
     = map Inr [''pump'', ''oven'', ''detector'']"
    by (simp add: sample_devices_def sample_record_def)
  have q: "filter (\<lambda>c. tag c = ''{urn:dev}Device'') (children sample_ns_devices)
     = [Element ''{urn:dev}Device'' (Some ''pump'') StringElement []]
       @ Element ''{urn:dev}Device'' None StringElement []
       # [Element ''{urn:dev}Device'' (Some ''oven'') StringElement []]"
    by (simp add: sample_ns_devices_def)
  have q1: "map sample_record [Element ''{urn:dev}Device'' (Some ''pump'') StringElement []]
     = map Inr [''pump'']"
    "sample_record (Element ''{urn:dev}Device'' None StringElement []) = Inl ValueError"
    by (simp_all add: sample_record_def)
  have r: "append_from_elements ''Device'' sample_record \<lparr>version = 1, data = []\<rparr> sample_devices
     = (\<lparr>version = 1, data = [''pump'', ''oven'', ''detector'']\<rparr>, None)"
    using append_from_element_length [where n = "''Device''" and f = sample_record
        and l = "\<lparr>version = 1, data = []\<rparr>" and es = sample_devices
        and rs = "[''pump'', ''oven'', ''detector'']",
        THEN conjunct2, THEN conjunct2, THEN conjunct1] p(1) m
    by simp
  have a: "length (data \<lparr>version = 1, data = [''pump'', ''oven'', ''detector'']\<rparr>)
     = length (data \<lparr>version = 1, data = ([] :: string list)\<rparr>)
       + sum_list (map (\<lambda>e. length (filter (\<lambda>c. tag c = ''Device'') (children e))) sample_devices)"
    using append_from_element_length [where n = "''Device''" and f = sample_record
        and l = "\<lparr>version = 1, data = []\<rparr>" and es = sample_devices
        and l' = "\<lparr>version = 1, data = [''pump'', ''oven'', ''detector'']\<rparr>",
        THEN conjunct2, THEN conjunct2, THEN conjunct2, THEN conjunct1] r
    by blast
  have b: "append_from_element ''{urn:dev}Device'' sample_record \<lparr>version = 1, data = []\<rparr>
       sample_ns_devices = (\<lparr>version = 1, data = [''pump'']\<rparr>, Some ValueError)"
    using append_from_element_length [where n = "''{urn:dev}Device''" and f = sample_record
        and l = "\<lparr>version = 1, data = []\<rparr>" and e = sample_ns_devices
        and xs = "[Element ''{urn:dev}Device'' (Some ''pump'') StringElement []]"
        and c = "Element ''{urn:dev}Device'' None StringElement []"
        and ys = "[Element ''{urn:dev}Device'' (Some ''oven'') StringElement []]"
        and rs = "[''pump'']" and err = ValueError,
        THEN conjunct2, THEN conjunct1] p(2) q q1
    by simp
  have c: "append_from_element ''Device'' sample_record \<lparr>version = 1, data = [''pump'']\<rparr>
       (sample_devices ! 1) = (\<lparr>version = 1, data = [''pump'']\<rparr>, None)"
    using append_from_element_length [where n = "''Device''" and f = sample_record
        and l = "\<lparr>version = 1, data = [''pump'']\<rparr>" and e = "sample_devices ! 1",
        THEN conjunct2, THEN conjunct2, THEN conjunct2, THEN conjunct2] p(1) z
    by simp
  from r a s b c show ?thesis by (intro conjI)
qed

text \<open>
  C5. \<open>from_xml\<close> reads the child \<open>Version\<close> of the element (in the namespace of the
  element): without such a child it fails with \<open>AttributeError\<close>; when \<open>int\<close> of the
  child fails, it fails with the same exception; when \<open>int\<close> of the child gives an
  integer, it returns the empty list with that integer as its version. When \<open>int\<close> of the
  child is \<open>int\<close> of its text, as for a string element, and the text is not numeric, the
  exception is \<open>ValueError\<close>. Whenever it returns, the version of the list is the integer
  that \<open>int\<close> gave for the child, and the list is empty.
\<close>

theorem from_xml_version:
  fixes l :: "'r xmllist"
  shows "(find (\<lambda>c. tag c = ns_prefix (tag e) @ ''Version'') (children e) = None \<longrightarrow>
      from_xml int_of e = (Inl AttributeError :: error + 'r xmllist))
   \<and> (find (\<lambda>c. tag c = ns_prefix (tag e) @ ''Version'') (children e) = Some v
        \<and> int_of v = Inl err \<longrightarrow> from_xml int_of e = (Inl err :: error + 'r xmllist))
   \<and> (find (\<lambda>c. tag c = ns_prefix (tag e) @ ''Version'') (children e) = Some v
        \<and> int_of v = Inr n \<longrightarrow>
        from_xml int_of e = Inr (\<lparr>version = n, data = []\<rparr> :: 'r xmllist))
   \<and> (find (\<lambda>c. tag c = ns_prefix (tag e) @ ''Version'') (children e) = Some v
        \<and> int_of v = py_int parse_int (etext v) \<and> etext v = Some s \<and> parse_int s = None \<longrightarrow>
        from_xml int_of e = (Inl ValueError :: error + 'r xmllist))
   \<and> (from_xml int_of e = Inr l \<longrightarrow>
        (\<exists>x. find (\<lambda>c. tag c = ns_prefix (tag e) @ ''Version'') (children e) = Some x
           \<and> int_of x = Inr (version l)) \<and> data l = [])"
  by (auto simp: from_xml_def getattr_child_def xmllist_init_def py_int_def
      split: option.splits sum.splits)

theorem from_xml_version_witness:
  "from_xml (\<lambda>x. py_int sample_int (etext x)) (Element ''Devices'' None OtherElement [])
     = (Inl AttributeError :: error + string xmllist)
   \<and> from_xml (\<lambda>x. py_int sample_int (etext x))
       (Element ''Devices'' None OtherElement [Element ''Version'' (Some ''beta'') StringElement []])
     = (Inl ValueError :: error + string xmllist)
   \<and> from_xml (\<lambda>x. py_int sample_int (etext x))
       (Element ''Devices'' None OtherElement [Element ''Version'' (Some ''7'') IntElement []])
     = Inr \<lparr>version = 7, data = ([] :: string list)\<rparr>
   \<and> from_xml (\<lambda>x. py_int sample_int (etext x))
       (Element ''{urn:dev}Devices'' None OtherElement
          [Element ''Other'' (Some ''1'') IntElement [],
           Element ''{urn:dev}Version'' (Some ''42'') IntElement []])
     = Inr \<lparr>version = 42, data = ([] :: string list)\<rparr>"
proof -
  have a: "from_xml (\<lambda>x. py_int sample_int (etext x)) (Element ''Devices'' None OtherElement [])
     = (Inl AttributeError :: error + string xmllist)"
    using from_xml_version [where e = "Element ''Devices'' None OtherElement []"
        and int_of = "\<lambda>x. py_int sample_int (etext x)"
        and l = "\<lparr>version = 0, data = ([] :: string list)\<rparr>"]
    by simp
  have b: "from_xml (\<lambda>x. py_int sample_int (etext x))
       (Element ''Devices'' None OtherElement [Element ''Version'' (Some ''beta'') StringElement []])
     = (Inl ValueError :: error + string xmllist)"
    using from_xml_version [where e = "Element ''Devices'' None OtherElement
          [Element ''Version'' (Some ''beta'') StringElement []]"
        and v = "Element ''Version'' (Some ''beta'') StringElement []" and s = "''beta''"
        and parse_int = sample_int and int_of = "\<lambda>x. py_int sample_int (etext x)"
        and l = "\<lparr>version = 0, data = ([] :: string list)\<rparr>"]
    by (simp add: ns_prefix_def sample_int_def)
  have c: "from_xml (\<lambda>x. py_int sample_int (etext x))
       (Element ''Devices'' None OtherElement [Element ''Version'' (Some ''7'') IntElement []])
     = Inr \<lparr>version = 7, data = ([] :: string list)\<rparr>"
    using from_xml_version [where e = "Element ''Devices'' None OtherElement
          [Element ''Version'' (Some ''7'') IntElement []]"
        and v = "Element ''Version'' (Some ''7'') IntElement []" and n = 7
        and int_of = "\<lambda>x. py_int sample_int (etext x)"
        and l = "\<lparr>version = 0, data = ([] :: string list)\<rparr>"]
    by (simp add: ns_prefix_def sample_int_def py_int_def)
  have d: "from_xml (\<lambda>x. py_int sample_int (etext x))
       (Element ''{urn:dev}Devices'' None OtherElement
          [Element ''Other'' (Some ''1'') IntElement [],
           Element ''{urn:dev}Version'' (Some ''42'') IntElement []])
     = Inr \<lparr>version = 42, data = ([] :: string list)\<rparr>"
    using from_xml_version [where e = "Element ''{urn:dev}Devices'' None OtherElement
          [Element ''Other'' (Some ''1'') IntElement [],
           Element ''{urn:dev}Version'' (Some ''42'') IntElement []]"
        and v = "Element ''{urn:dev}Version'' (Some ''42'') IntElement []" and n = 42
        and int_of = "\<lambda>x. py_int sample_int (etext x)"
        and l = "\<lparr>version = 0, data = ([] :: string list)\<rparr>"]
    by (simp add: ns_prefix_def sample_int_def py_int_def)
  from a b c d show ?thesis by blast
qed

text \<open>
  C9, as amended. The version is the one the constructor stored, \<open>int(version)\<close>, and
  neither \<open>_append_from_element\<close> nor \<open>append\<close> changes it; both leave the records
  that are there in place and add records behind them only. \<open>append\<close> adds its argument
  as it is.
\<close>

theorem xmllist_version_fixed:
  "version (apply_op n f l op) = version l
   \<and> (\<exists>rs. data (apply_op n f l op) = data l @ rs)
   \<and> data (apply_op n f l (Append r)) = data l @ [r]
   \<and> (xmllist_init int_of v xs = Inr l' \<longrightarrow> int_of v = Inr (version l') \<and> data l' = xs)"
proof -
  have "version (apply_op n f l op) = version l \<and> (\<exists>rs. data (apply_op n f l op) = data l @ rs)"
  proof (cases op)
    case (AppendFromElement e)
    show ?thesis
      using append_items_frame [of l] AppendFromElement
      by (auto simp: apply_op_def append_from_element_def split: sum.splits)
  next
    case (Append r)
    then show ?thesis by (simp add: apply_op_def append_def)
  qed
  moreover have "data (apply_op n f l (Append r)) = data l @ [r]"
    by (simp add: apply_op_def append_def)
  moreover have "xmllist_init int_of v xs = Inr l' \<longrightarrow> int_of v = Inr (version l') \<and> data l' = xs"
    by (auto simp: xmllist_init_def split: sum.splits)
  ultimately show ?thesis by blast
qed

theorem xmllist_version_fixed_witness:
  "version (apply_op ''Device'' sample_record \<lparr>version = 1, data = [''pump'']\<rparr>
       (AppendFromElement (sample_devices ! 2))) = 1
   \<and> data (apply_op ''Device'' sample_record \<lparr>version = 1, data = [''pump'']\<rparr>
       (AppendFromElement (sample_devices ! 2))) = [''pump'', ''detector'']
   \<and> data (apply_op ''Device'' sample_record \<lparr>version = 1, data = [''pump'']\<rparr> (Append ''oven''))
       = [''pump'', ''oven'']"
proof -
  have "data (apply_op ''Device'' sample_record \<lparr>version = 1, data = [''pump'']\<rparr>
       (AppendFromElement (sample_devices ! 2))) = [''pump'', ''detector'']"
    by code_simp
  then show ?thesis
    using xmllist_version_fixed [where n = "''Device''" and f = sample_record
        and l = "\<lparr>version = 1, data = [''pump'']\<rparr>"
        and op = "AppendFromElement (sample_devices ! 2)" and r = "''oven''"
        and int_of = "\<lambda>x. py_int sample_int (Some x)" and v = "''7''"
        and xs = "[] :: string list" and l' = "\<lparr>version = 7, data = ([] :: string list)\<rparr>"]
    by simp
qed

text \<open>
  C9 as stated fails: the list grows by \<open>append\<close>, which parses no element, and the
  constructor takes the records of \<open>initlist\<close>.
\<close>

theorem xmllist_grows_by_append:
  "length (data \<lparr>version = 1, data = [''pump'']\<rparr>)
     < length (data (apply_op ''Device'' sample_record \<lparr>version = 1, data = [''pump'']\<rparr>
          (Append ''oven'')))
   \<and> \<not> is_parse (Append ''oven'' :: string xmllist_op)
   \<and> xmllist_init (\<lambda>x. py_int sample_int (Some x)) ''7'' [''pump'', ''oven'']
       = Inr \<lparr>version = 7, data = [''pump'', ''oven'']\<rparr>"
  by code_simp

section \<open>\<open>extract_metadata\<close>: properties\<close>

text \<open>
  C4. \<open>extract_metadata\<close> fails with \<open>TypeError\<close> on an argument that is not path-like,
  whatever the filesystem and the parsers are, and with \<open>ValueError\<close> on a path that is
  not an existing directory with the extension \<open>.d\<close>; on a datafile directory it returns
  what the parsers return. In the first two cases no mapping is returned.
\<close>

theorem extract_metadata_rejects:
  "extract_metadata is_dir parse NotPathLike = Inl TypeError
   \<and> (\<not> (is_dir p \<and> has_datafile_extension p) \<longrightarrow>
        extract_metadata is_dir parse (PathLike p) = Inl ValueError)
   \<and> (is_dir p \<and> has_datafile_extension p \<longrightarrow>
        extract_metadata is_dir parse (PathLike p) = parse p)"
  by (auto simp: extract_metadata_def is_datafile_def)

theorem extract_metadata_rejects_witness:
  "extract_metadata sample_is_dir sample_parse NotPathLike = Inl TypeError
   \<and> extract_metadata sample_is_dir sample_parse (PathLike ''tests'') = Inl ValueError
   \<and> extract_metadata sample_is_dir sample_parse (PathLike ''other/run2.d'') = Inl ValueError
   \<and> extract_metadata sample_is_dir sample_parse (PathLike ''tests/run1.d'')
       = Inr [''AcqMethod'', ''Contents'']"
proof -
  have "\<not> (sample_is_dir ''tests'' \<and> has_datafile_extension ''tests'')"
    "\<not> (sample_is_dir ''other/run2.d'' \<and> has_datafile_extension ''other/run2.d'')"
    "sample_is_dir ''tests/run1.d'' \<and> has_datafile_extension ''tests/run1.d''"
    by (simp_all add: sample_is_dir_def has_datafile_extension_def)
  then show ?thesis
    using extract_metadata_rejects [of sample_is_dir sample_parse "''tests''"]
      extract_metadata_rejects [of sample_is_dir sample_parse "''other/run2.d''"]
      extract_metadata_rejects [of sample_is_dir sample_parse "''tests/run1.d''"]
    by (simp add: sample_parse_def)
qed

end
